theory Spec2Isabelle
  imports Complex_Main "HOL-Library.Log_Nat" "HOL-Library.Word"
begin

section \<open>Numeric buffers\<close>

text \<open>
  The notebook works on Python lists and on NumPy buffers. A Python list is a HOL list
  and a Python integer is an \<open>int\<close>. A one-dimensional \<open>np.ndarray\<close> is a
  homogeneous sequence of elements of one element type; the wrapper keeps it apart from
  a list, as the two are different types in the source.
\<close>

datatype 'a ndarray = NDArray (items: "'a list")

text \<open>
  A double is identified with the real number it denotes (infinities and NaN never
  arise in the functions below).
\<close>

datatype float64 = Float64 (float_value: real)

text \<open>
  Conversion of an integer to a double, as the C cast that NumPy applies when a 64-bit
  integer value is stored into a float64 buffer: the nearest number with a 53-bit
  significand, ties to the even significand. The result is again an integer, so the
  function returns it as one. (An integer below \<open>2^64\<close> in magnitude has a
  64-bit element type in NumPy; larger ones take another path, which plays no part
  below.)
\<close>

definition round_to_double :: "int \<Rightarrow> int" where
  "round_to_double i =
     (let a = \<bar>i\<bar>; e = bitlen a - 53
      in if e \<le> 0 then i
         else let q = a div 2 ^ nat e;
                  r = a mod 2 ^ nat e;
                  h = 2 ^ (nat e - 1);
                  q' = (if h < r \<or> (r = h \<and> odd q) then q + 1 else q)
              in sgn i * (q' * 2 ^ nat e))"

definition float64_of_int :: "int \<Rightarrow> float64" where
  "float64_of_int i = Float64 (of_int (round_to_double i))"

text \<open>\<open>np.array([])\<close>: the empty buffer; its element type is float64.\<close>

definition np_array_empty :: "float64 ndarray" where
  "np_array_empty = NDArray []"

text \<open>
  \<open>np.append(arr, i)\<close> for a float64 buffer and a Python integer: the integer becomes
  a one-element integer buffer, and the concatenation of the two is a new float64 buffer,
  the copy of \<open>arr\<close> followed by \<open>i\<close> converted to a double.
\<close>

definition np_append :: "float64 ndarray \<Rightarrow> int \<Rightarrow> float64 ndarray" where
  "np_append arr i = NDArray (items arr @ [float64_of_int i])"

section \<open>First block: growing a list, growing a buffer\<close>

text \<open>
  \<^verbatim>\<open>
  def build_list(count):
      out = []
      for i in range(count):
          out.append(i)
      return out
  \<close>
  The iteration over \<open>range(count)\<close> is the counter loop of the range iterator: it
  starts at 0, stops as soon as the counter reaches \<open>count\<close>, and so runs no step at
  all for a \<open>count\<close> that is zero or negative.
\<close>

function build_list_loop :: "int \<Rightarrow> int \<Rightarrow> int list \<Rightarrow> int list" where
  "build_list_loop i count out =
     (if i < count then build_list_loop (i + 1) count (out @ [i]) else out)"
  by pat_completeness auto
termination
  by (relation "measure (\<lambda>(i, count, out). nat (count - i))") auto

declare build_list_loop.simps [simp del]

definition build_list :: "int \<Rightarrow> int list" where
  "build_list count = build_list_loop 0 count []"

text \<open>
  \<^verbatim>\<open>
  def build_array(count):
      out = np.array([])
      for i in range(count):
          out = np.append(out,i)
      return out
  \<close>
\<close>

function build_array_loop :: "int \<Rightarrow> int \<Rightarrow> float64 ndarray \<Rightarrow> float64 ndarray" where
  "build_array_loop i count out =
     (if i < count then build_array_loop (i + 1) count (np_append out i) else out)"
  by pat_completeness auto
termination
  by (relation "measure (\<lambda>(i, count, out). nat (count - i))") auto

declare build_array_loop.simps [simp del]

definition build_array :: "int \<Rightarrow> float64 ndarray" where
  "build_array count = build_array_loop 0 count np_array_empty"

text \<open>\<open>range(count)\<close> as a list.\<close>

definition range_list :: "int \<Rightarrow> int list" where
  "range_list count = [0..count - 1]"

text \<open>
  The second half of the block squares a prebuilt list (by a loop) and a prebuilt buffer
  (by one whole-buffer operation). \<open>arr ** n\<close> on an \<open>np.ndarray\<close> raises every
  element to the power \<open>n\<close> in the arithmetic of the buffer's element type, and
  returns a new buffer of the same shape and element type. The element type of the
  buffer is the type parameter: an int64 buffer is a \<open>64 word ndarray\<close>, whose power
  wraps around modulo \<open>2^64\<close> as NumPy's does, while a buffer of Python objects that
  are integers is an \<open>int ndarray\<close>, whose power is the exact one of Python. The
  power of a float64 buffer rounds; it is not modelled, and \<open>float64\<close> is given no
  power here.
\<close>

definition ndarray_power :: "'a::power ndarray \<Rightarrow> nat \<Rightarrow> 'a ndarray" where
  "ndarray_power arr n = NDArray (map (\<lambda>x. x ^ n) (items arr))"

text \<open>
  \<^verbatim>\<open>
  def square_all_array(list_struct):
      return list_struct**2
  \<close>
\<close>

definition square_all_array :: "'a::power ndarray \<Rightarrow> 'a ndarray" where
  "square_all_array list_struct = ndarray_power list_struct 2"

text \<open>
  \<^verbatim>\<open>
  def square_all_list(list_struct):
      out = []
      for i in list_struct:
          out.append(i**2)
      return out
  \<close>
  The loop visits the elements of the list from the first to the last and appends to
  the accumulator at each: a left fold.
\<close>

definition square_all_list :: "'a::power list \<Rightarrow> 'a list" where
  "square_all_list list_struct = fold (\<lambda>i out. out @ [i ^ 2]) list_struct []"

text \<open>\<open>list(arr)\<close>: the elements of a buffer as a list, in order.\<close>

definition list_of_ndarray :: "'a ndarray \<Rightarrow> 'a list" where
  "list_of_ndarray arr = items arr"

text \<open>
  \<open>np.array(S)\<close> for a list of Python integers, on a platform whose default integer
  is 64 bits wide: when every element lies in the int64 range the buffer has element
  type int64 and holds the elements in order (of the empty list it makes an empty
  buffer). Otherwise NumPy picks another element type; that case is left out, and the
  result is \<open>None\<close>.
\<close>

definition in_int64_range :: "int \<Rightarrow> bool" where
  "in_int64_range x = (- 9223372036854775808 \<le> x \<and> x < 9223372036854775808)"

definition np_array_int64 :: "int list \<Rightarrow> 64 word ndarray option" where
  "np_array_int64 S =
     (if list_all in_int64_range S then Some (NDArray (map of_int S)) else None)"

text \<open>The elements of an int64 buffer read back as integers: the signed value.\<close>

definition int64_values :: "64 word ndarray \<Rightarrow> int list" where
  "int64_values arr = map sint (list_of_ndarray arr)"

section \<open>Second block: loop and comprehension\<close>

text \<open>
  \<^verbatim>\<open>
  def square_list_FL(list_struct):
      out = []
      for element in list_struct:
          out.append(element**2)
      return out

  def square_list_LC(list_struct):
      return [element**2 for element in list_struct]
  \<close>
\<close>

definition square_list_FL :: "'a::power list \<Rightarrow> 'a list" where
  "square_list_FL list_struct = fold (\<lambda>element out. out @ [element ^ 2]) list_struct []"

definition square_list_LC :: "'a::power list \<Rightarrow> 'a list" where
  "square_list_LC list_struct = [element ^ 2. element \<leftarrow> list_struct]"

section \<open>Third block: a dense complex buffer as array and as matrix\<close>

text \<open>
  The random source is the sequence of uniform samples that the generator is going to
  deliver, together with the number of samples already drawn. \<open>np.random.rand(d0, d1)\<close>
  draws \<open>d0 * d1\<close> samples and lays them out row by row.
\<close>

datatype random_state = RandomState (samples: "nat \<Rightarrow> real") (drawn: nat)

definition random_rand :: "nat \<Rightarrow> nat \<Rightarrow> random_state \<Rightarrow> real list list \<times> random_state" where
  "random_rand d0 d1 st =
     ([[samples st (drawn st + i * d1 + j). j \<leftarrow> [0..<d1]]. i \<leftarrow> [0..<d0]],
      RandomState (samples st) (drawn st + d0 * d1))"

text \<open>
  \<^verbatim>\<open>
  def generate_dense_matrix(N, density=0.2):
      real = np.random.rand(N, N) > density/2
      imaginary =(np.random.rand(N, N) > density/2)*1j
      return real+imaginary
  \<close>
  The comparison gives a Boolean buffer; multiplied by \<open>1j\<close> a Boolean counts as 0 or
  1, and so it does in the final sum with a complex buffer.
\<close>

definition generate_dense_matrix ::
  "nat \<Rightarrow> real \<Rightarrow> random_state \<Rightarrow> complex list list \<times> random_state" where
  "generate_dense_matrix N density st =
     (let (r1, st1) = random_rand N N st;
          real = map (map (\<lambda>x. density / 2 < x)) r1;
          (r2, st2) = random_rand N N st1;
          imaginary = map (map (\<lambda>x. of_bool (density / 2 < x) * \<i>)) r2
      in (map2 (map2 (\<lambda>b z. of_bool b + z)) real imaginary, st2))"

text \<open>The default of the parameter \<open>density\<close>, passed when a call omits it.\<close>

definition default_density :: real where
  "default_density = 2 / 10"


text \<open>The power of every element, and the product and the power of matrices, in exact
  arithmetic.\<close>

definition elementwise_power :: "'a::power list list \<Rightarrow> nat \<Rightarrow> 'a list list" where
  "elementwise_power a n = map (map (\<lambda>x. x ^ n)) a"














section \<open>The squaring functions on a store of objects\<close>

text \<open>
  Python passes a list by reference and \<open>append\<close> changes the list object in place, so
  what a call does to its argument is a question about objects. The store holds the
  list objects; the address of an object is its index, and a new object goes to the
  end. The \<open>for\<close> loop over a list keeps a position and, at each step, compares it
  with the current length of the list object and reads the element at that position:
  if the body were to append to the very list being traversed the loop would not end,
  which is why the loop is a partial function here.
\<close>

type_synonym 'a store = "'a list list"

definition store_new :: "'a list \<Rightarrow> 'a store \<Rightarrow> nat \<times> 'a store" where
  "store_new xs s = (length s, s @ [xs])"

definition store_append :: "nat \<Rightarrow> 'a \<Rightarrow> 'a store \<Rightarrow> 'a store" where
  "store_append a x s = s[a := s ! a @ [x]]"

partial_function (option) square_loop_st ::
  "nat \<Rightarrow> nat \<Rightarrow> nat \<Rightarrow> 'a::power store \<Rightarrow> 'a store option" where
  "square_loop_st src out k s =
     (if k < length (s ! src)
      then square_loop_st src out (k + 1) (store_append out ((s ! src ! k) ^ 2) s)
      else Some s)"

declare square_loop_st.simps [code]

definition square_all_list_st :: "nat \<Rightarrow> 'a::power store \<Rightarrow> (nat \<times> 'a store) option" where
  "square_all_list_st list_struct s =
     (let (out, s1) = store_new [] s
      in map_option (Pair out) (square_loop_st list_struct out 0 s1))"

definition square_list_FL_st :: "nat \<Rightarrow> 'a::power store \<Rightarrow> (nat \<times> 'a store) option" where
  "square_list_FL_st list_struct s =
     (let (out, s1) = store_new [] s
      in map_option (Pair out) (square_loop_st list_struct out 0 s1))"

text \<open>
  The comprehension builds its result in a new list object as well, one append for each
  element of the traversal; the whole-buffer power allocates the result buffer and fills
  it from the operand.
\<close>

definition square_list_LC_st :: "nat \<Rightarrow> 'a::power store \<Rightarrow> (nat \<times> 'a store) option" where
  "square_list_LC_st list_struct s =
     (let (out, s1) = store_new [] s
      in map_option (Pair out) (square_loop_st list_struct out 0 s1))"

definition square_all_array_st :: "nat \<Rightarrow> 'a::power store \<Rightarrow> (nat \<times> 'a store) option" where
  "square_all_array_st list_struct s = Some (store_new (map (\<lambda>x. x ^ 2) (s ! list_struct)) s)"

section \<open>Properties of the growth loops\<close>

lemma build_list_loop_eq: "build_list_loop i count out = out @ [i..count - 1]"
proof (induction i count out rule: build_list_loop.induct)
  case (1 i count out)
  show ?case
  proof (cases "i < count")
    case True
    then have "[i..count - 1] = i # [i + 1..count - 1]"
      by (simp add: upto_rec1)
    with True "1" show ?thesis
      by (simp add: build_list_loop.simps [of i])
  next
    case False
    then show ?thesis
      by (simp add: build_list_loop.simps [of i])
  qed
qed

lemma build_array_loop_eq:
  "items (build_array_loop i count out) = items out @ map float64_of_int [i..count - 1]"
proof (induction i count out rule: build_array_loop.induct)
  case (1 i count out)
  show ?case
  proof (cases "i < count")
    case True
    then have "[i..count - 1] = i # [i + 1..count - 1]"
      by (simp add: upto_rec1)
    with True "1" show ?thesis
      by (simp add: build_array_loop.simps [of i] np_append_def)
  next
    case False
    then show ?thesis
      by (simp add: build_array_loop.simps [of i])
  qed
qed


lemma build_list_eq: "build_list count = [0..count - 1]"
  by (simp add: build_list_def build_list_loop_eq)

lemma build_array_eq: "items (build_array count) = map float64_of_int [0..count - 1]"
  by (simp add: build_array_def np_array_empty_def build_array_loop_eq)

subsection \<open>Integers that a double holds exactly\<close>

lemma round_to_double_pow53: "round_to_double 9007199254740992 = 9007199254740992"
  by code_simp

lemma round_to_double_neg_pow53: "round_to_double (- 9007199254740992) = - 9007199254740992"
  by code_simp

lemma round_to_double_exact:
  assumes "\<bar>i\<bar> \<le> 9007199254740992"
  shows "round_to_double i = i"
proof (cases "\<bar>i\<bar> < 9007199254740992")
  case True
  then have "\<bar>i\<bar> < 2 ^ nat 53" by simp
  then have "bitlen \<bar>i\<bar> \<le> 53"
    by (simp only: bitlen_le_iff_power) simp
  then show ?thesis
    by (simp add: round_to_double_def Let_def)
next
  case False
  with assms have "i = 9007199254740992 \<or> i = - 9007199254740992" by linarith
  then show ?thesis
    using round_to_double_pow53 round_to_double_neg_pow53 by auto
qed

text \<open>The bound is sharp: \<open>2^53 + 1\<close> is the first integer that is not a double.\<close>

lemma round_to_double_first_inexact: "round_to_double 9007199254740993 = 9007199254740992"
  by code_simp

lemma build_array_values_exact:
  assumes "count \<le> 9007199254740993"
  shows "map float_value (items (build_array count)) = map of_int [0..count - 1]"
proof -
  have "float_value (float64_of_int k) = of_int k" if "k \<in> set [0..count - 1]" for k
  proof -
    from that assms have "\<bar>k\<bar> \<le> 9007199254740992" by auto
    then show ?thesis
      by (simp add: float64_of_int_def round_to_double_exact)
  qed
  then show ?thesis
    by (simp add: build_array_eq)
qed

section \<open>Properties of the squaring functions\<close>

lemma fold_append_map: "fold (\<lambda>x out. out @ [f x]) xs acc = acc @ map f xs"
  by (induction xs arbitrary: acc) simp_all

lemma square_all_list_eq: "square_all_list xs = map (\<lambda>x. x ^ 2) xs"
  by (simp add: square_all_list_def fold_append_map)

lemma square_list_FL_eq: "square_list_FL xs = map (\<lambda>x. x ^ 2) xs"
  by (simp add: square_list_FL_def fold_append_map)

subsection \<open>Squares in an int64 buffer\<close>

lemma sint_square_int64:
  assumes "x\<^sup>2 < 9223372036854775808"
  shows "sint ((of_int x :: 64 word) ^ 2) = x\<^sup>2"
proof -
  have pow: "(2::int) ^ 63 = 9223372036854775808" by simp
  have "(of_int x :: 64 word) ^ 2 = word_of_int (x\<^sup>2)"
    by (rule word_of_int_power_hom)
  then have "sint ((of_int x :: 64 word) ^ 2) = signed_take_bit (LENGTH(64) - 1) (x\<^sup>2)"
    by (simp only: sint_sbintrunc')
  also have "LENGTH(64) - 1 = (63::nat)" by simp
  also have "signed_take_bit 63 (x\<^sup>2) = x\<^sup>2"
  proof (rule signed_take_bit_int_eq_self)
    have "0 \<le> x\<^sup>2" by simp
    then show "- (2 ^ 63) \<le> x\<^sup>2" by (simp only: pow)
    show "x\<^sup>2 < 2 ^ 63" using assms by (simp only: pow)
  qed
  finally show ?thesis .
qed


lemma abs_le_square: "\<bar>x\<bar> \<le> x\<^sup>2" for x :: int
proof (cases "x = 0")
  case True
  then show ?thesis by simp
next
  case False
  then have "1 \<le> \<bar>x\<bar>" by simp
  then have "\<bar>x\<bar> * 1 \<le> \<bar>x\<bar> * \<bar>x\<bar>"
    by (intro mult_left_mono) simp_all
  then show ?thesis
    by (simp add: power2_eq_square abs_mult_self_eq)
qed

lemma square_small_in_int64_range:
  assumes "x\<^sup>2 < 9223372036854775808"
  shows "in_int64_range x"
  unfolding in_int64_range_def using assms abs_le_square [of x] by linarith

lemma int64_square_values:
  assumes "list_all (\<lambda>x. x\<^sup>2 < 9223372036854775808) S"
  shows "np_array_int64 S = Some (NDArray (map of_int S))"
    and "int64_values (square_all_array (NDArray (map of_int S))) = map (\<lambda>x. x\<^sup>2) S"
proof -
  from assms have "list_all in_int64_range S"
    by (auto simp: list_all_iff square_small_in_int64_range)
  then show "np_array_int64 S = Some (NDArray (map of_int S))"
    by (simp add: np_array_int64_def)
  from assms show "int64_values (square_all_array (NDArray (map of_int S))) = map (\<lambda>x. x\<^sup>2) S"
    by (simp add: int64_values_def list_of_ndarray_def square_all_array_def ndarray_power_def
        list_all_iff sint_square_int64 o_def)
qed

lemma int64_square_wraps:
  "int64_values (square_all_array (NDArray [4294967296])) = [0]"
  by (simp add: int64_values_def list_of_ndarray_def square_all_array_def ndarray_power_def)

lemma np_array_int64_big: "np_array_int64 [4294967296] = Some (NDArray [4294967296])"
  by (simp add: np_array_int64_def in_int64_range_def)

subsection \<open>The loop on the store\<close>

text \<open>
  As long as the accumulator is another object than the list being traversed, the loop
  ends, and all it changes is the accumulator, which receives the squares of the
  elements from position \<open>k\<close> on.
\<close>

lemma square_loop_st_eq:
  assumes "src < length s" "out < length s" "src \<noteq> out"
  shows "square_loop_st src out k s =
           Some (s[out := s ! out @ map (\<lambda>x. x ^ 2) (drop k (s ! src))])"
  using assms
proof (induction "length (s ! src) - k" arbitrary: k s)
  case 0
  then show ?case
    by (subst square_loop_st.simps) (simp add: list_update_same_conv)
next
  case (Suc n)
  let ?s' = "store_append out ((s ! src ! k)\<^sup>2) s"
  from Suc.hyps(2) have k: "k < length (s ! src)" by simp
  have src': "?s' ! src = s ! src"
    using Suc.prems by (simp add: store_append_def)
  have len': "length ?s' = length s"
    by (simp add: store_append_def)
  have "n = length (?s' ! src) - (k + 1)"
    using Suc.hyps(2) src' by simp
  from Suc.hyps(1) [OF this] Suc.prems len'
  have "square_loop_st src out (k + 1) ?s' =
          Some (?s'[out := ?s' ! out @ map (\<lambda>x. x ^ 2) (drop (k + 1) (?s' ! src))])"
    by simp
  also have "?s'[out := ?s' ! out @ map (\<lambda>x. x ^ 2) (drop (k + 1) (?s' ! src))] =
               s[out := s ! out @ map (\<lambda>x. x ^ 2) (drop k (s ! src))]"
    using k Suc.prems by (simp add: store_append_def Cons_nth_drop_Suc [symmetric])
  finally show ?case
    using k by (subst square_loop_st.simps) simp
qed

lemma square_loop_new_eq:
  assumes "src < length s"
  shows "square_loop_st src (length s) 0 (s @ [[]]) = Some (s @ [map (\<lambda>x. x ^ 2) (s ! src)])"
proof -
  have "square_loop_st src (length s) 0 (s @ [[]]) =
          Some ((s @ [[]])[length s := (s @ [[]]) ! length s @
             map (\<lambda>x. x ^ 2) (drop 0 ((s @ [[]]) ! src))])"
    using assms by (intro square_loop_st_eq) simp_all
  then show ?thesis
    using assms by (simp add: nth_append)
qed

section \<open>Properties of the random buffer\<close>

lemma random_rand_length: "length (fst (random_rand d0 d1 st)) = d0"
  by (simp add: random_rand_def)

lemma generate_dense_matrix_rows:
  "fst (generate_dense_matrix N density st) =
     [[Complex (of_bool (density / 2 < samples st (drawn st + i * N + j)))
               (of_bool (density / 2 < samples st (drawn st + N * N + i * N + j))).
         j \<leftarrow> [0..<N]]. i \<leftarrow> [0..<N]]"
  by (simp add: generate_dense_matrix_def random_rand_def Let_def zip_map_map
      map_zip_map map_zip_map2 zip_same_conv_map complex_eq_iff o_def add.assoc)

lemma generate_dense_matrix_state:
  "snd (generate_dense_matrix N density st) = RandomState (samples st) (drawn st + 2 * (N * N))"
  by (simp add: generate_dense_matrix_def random_rand_def Let_def)

lemma generate_dense_matrix_nth:
  assumes "i < N" "j < N"
  shows "fst (generate_dense_matrix N density st) ! i ! j =
     Complex (of_bool (density / 2 < samples st (drawn st + i * N + j)))
             (of_bool (density / 2 < samples st (drawn st + N * N + i * N + j)))"
  using assms by (simp add: generate_dense_matrix_rows)

section \<open>Matrix power and element-wise power\<close>











lemma elementwise_power_shear:
  "elementwise_power [[1, 1], [0, 1::'a::semiring_1]] 300 = [[1, 1], [0, 1]]"
  by (simp add: elementwise_power_def)











section \<open>The claims\<close>

subsection \<open>Growth of a list and of a buffer\<close>

text \<open>
  Claim C4. For every \<open>count\<close>, \<open>build_list count\<close> is the ordered sequence
  \<open>range(count)\<close>, that is 0, 1, ..., \<open>count - 1\<close> (the element at position \<open>k\<close>
  is \<open>k\<close>), and in particular \<open>build_list 5\<close> is \<open>[0, 1, 2, 3, 4]\<close>.
  \<open>build_array count\<close> has the same number of elements, and they are equal in value,
  position by position, to \<open>range(count)\<close>, at every \<open>count\<close> at which a run of
  \<open>build_array\<close> can come to its end: its buffer of \<open>count\<close> doubles takes
  \<open>8 * count\<close> bytes, which no 64-bit machine can hold once \<open>count\<close> reaches
  \<open>2^53\<close>. The theorem covers every \<open>count\<close> up to \<open>2^53 + 1\<close>.
\<close>

theorem build_sequences_range:
  "build_list count = range_list count \<and>
   length (build_list count) = nat count \<and>
   (\<forall>k<nat count. build_list count ! k = int k) \<and>
   build_list 5 = [0, 1, 2, 3, 4] \<and>
   length (items (build_array count)) = length (range_list count) \<and>
   (count \<le> 9007199254740993 \<longrightarrow>
      map float_value (items (build_array count)) = map of_int (range_list count))"
proof -
  have "build_list count = range_list count"
    by (simp add: range_list_def build_list_eq)
  moreover have "length (build_list count) = nat count"
    by (simp add: build_list_eq)
  moreover have "\<forall>k<nat count. build_list count ! k = int k"
    by (simp add: build_list_eq nth_upto)
  moreover have "build_list 5 = [0, 1, 2, 3, 4]"
    by code_simp
  moreover have "length (items (build_array count)) = length (range_list count)"
    by (simp add: range_list_def build_array_eq)
  moreover have "count \<le> 9007199254740993 \<longrightarrow>
      map float_value (items (build_array count)) = map of_int (range_list count)"
    using build_array_values_exact [of count] by (simp add: range_list_def)
  ultimately show ?thesis
    by blast
qed

theorem build_sequences_range_witness:
  "build_list 3 = range_list 3 \<and>
   (3::int) \<le> 9007199254740993 \<and>
   map float_value (items (build_array 3)) = map of_int (range_list 3)"
  using build_sequences_range [of 3] by simp

text \<open>
  Claim C7. \<open>build_list\<close> and \<open>build_array\<close> have no failing branch: both loops are
  total functions (their termination is proved with the distance from the counter to
  \<open>count\<close> as the measure), no argument is rejected, and for every \<open>count\<close> each
  returns a sequence, of \<open>count\<close> elements when \<open>count\<close> is not negative and empty
  otherwise.
\<close>

theorem build_functions_return:
  "length (build_list count) = nat count \<and> length (items (build_array count)) = nat count"
  by (simp add: build_list_eq build_array_eq)

text \<open>
  Claim C10. \<open>build_array\<close> returns a buffer of doubles where \<open>build_list\<close>
  returns a list of integers: each element of the buffer is the conversion of the
  integer at the same position of the list. The two agree in value at every position,
  exactly, because the integers appended are small: every integer of magnitude at most
  \<open>2^53\<close> is a double (\<open>round_to_double_exact\<close>), and these are all the integers
  that a run of \<open>build_array\<close> can reach, its buffer taking 8 bytes for each element.
  The theorem covers every \<open>count\<close> up to \<open>2^53 + 1\<close>.
\<close>

theorem build_array_agrees_with_build_list:
  assumes "count \<le> 9007199254740993"
  shows "items (build_array count) = map float64_of_int (build_list count) \<and>
    map float_value (items (build_array count)) = map of_int (build_list count)"
  using build_array_values_exact [OF assms] by (simp add: build_list_eq build_array_eq)

theorem build_array_agrees_with_build_list_witness:
  "(5::int) \<le> 9007199254740993 \<and>
   items (build_array 5) = map float64_of_int (build_list 5) \<and>
   map float_value (items (build_array 5)) = map of_int (build_list 5)"
proof -
  have le: "(5::int) \<le> 9007199254740993" by simp
  from le build_array_agrees_with_build_list [OF le] show ?thesis
    by blast
qed

subsection \<open>Squaring\<close>

text \<open>
  Claim C2. For every input sequence, the accumulation loop \<open>square_list_FL\<close> and the
  comprehension \<open>square_list_LC\<close> return the same sequence: the squares of the elements
  of the input, in the order of the input.
\<close>

theorem square_list_FL_LC_equal:
  "square_list_FL xs = square_list_LC xs \<and> square_list_FL xs = map (\<lambda>x. x ^ 2) xs"
  by (simp add: square_list_FL_eq square_list_LC_def)

text \<open>
  Claim C3, as amended. For every sequence \<open>S\<close> of integers whose squares fit the
  element type int64 (each square is below \<open>2^63\<close>), the loop \<open>square_all_list\<close>
  on \<open>S\<close> as a list and the whole-buffer operation \<open>square_all_array\<close> on \<open>S\<close>
  as an int64 buffer give equal sequences, of the same length as \<open>S\<close>: the squares of
  the elements of \<open>S\<close> in the order of \<open>S\<close>.
\<close>

theorem square_all_list_array_equal:
  assumes "list_all (\<lambda>x. x\<^sup>2 < 9223372036854775808) S"
  shows "np_array_int64 S = Some (NDArray (map of_int S)) \<and>
    int64_values (square_all_array (NDArray (map of_int S))) = square_all_list S \<and>
    square_all_list S = map (\<lambda>x. x\<^sup>2) S \<and>
    length (square_all_list S) = length S \<and>
    length (int64_values (square_all_array (NDArray (map of_int S)))) = length S"
  using int64_square_values [OF assms] by (simp add: square_all_list_eq)

theorem square_all_list_array_equal_witness:
  "list_all (\<lambda>x. x\<^sup>2 < 9223372036854775808) [3, - 2, 3037000499 :: int] \<and>
   np_array_int64 [3, - 2, 3037000499] = Some (NDArray (map of_int [3, - 2, 3037000499])) \<and>
   int64_values (square_all_array (NDArray (map of_int [3, - 2, 3037000499 :: int]))) =
     square_all_list [3, - 2, 3037000499] \<and>
   square_all_list [3, - 2, 3037000499 :: int] = [9, 4, 9223372030926249001]"
proof -
  have small: "list_all (\<lambda>x. x\<^sup>2 < 9223372036854775808) [3, - 2, 3037000499 :: int]"
    by simp
  have "square_all_list [3, - 2, 3037000499 :: int] = [9, 4, 9223372030926249001]"
    by (simp add: square_all_list_def)
  with small square_all_list_array_equal [OF small] show ?thesis
    by blast
qed

text \<open>
  The square of \<open>2^32\<close> is \<open>2^64\<close> in the list and wraps around to 0 in the int64
  buffer.
\<close>

theorem square_all_array_wraps:
  "np_array_int64 [4294967296] = Some (NDArray [4294967296]) \<and>
   int64_values (square_all_array (NDArray [4294967296])) = [0] \<and>
   square_all_list [4294967296 :: int] = [18446744073709551616] \<and>
   int64_values (square_all_array (NDArray [4294967296])) \<noteq>
     square_all_list [4294967296]"
  by (simp add: np_array_int64_big int64_square_wraps square_all_list_eq)

text \<open>
  Claim C5. On the input \<open>[0, 1, 2, 3]\<close> each of the four squaring functions returns
  \<open>[0, 1, 4, 9]\<close>; \<open>square_all_array\<close> does so on the buffer of Python integers
  and on the int64 buffer that \<open>np.array\<close> makes of the list.
\<close>

theorem squares_of_0123:
  "square_all_list [0, 1, 2, 3 :: int] = [0, 1, 4, 9] \<and>
   list_of_ndarray (square_all_array (NDArray [0, 1, 2, 3 :: int])) = [0, 1, 4, 9] \<and>
   square_list_FL [0, 1, 2, 3 :: int] = [0, 1, 4, 9] \<and>
   square_list_LC [0, 1, 2, 3 :: int] = [0, 1, 4, 9] \<and>
   np_array_int64 [0, 1, 2, 3] = Some (NDArray [0, 1, 2, 3]) \<and>
   int64_values (square_all_array (NDArray [0, 1, 2, 3])) = [0, 1, 4, 9]"
  by (simp add: square_all_list_def square_all_array_def ndarray_power_def list_of_ndarray_def
      square_list_FL_def square_list_LC_def np_array_int64_def in_int64_range_def
      int64_values_def)

text \<open>
  Claim C9. Each of the four squaring functions leaves its argument as it was: the call
  returns the address of an object that did not exist before, holding the squares, and
  the store after the call is the store before it with that one object added, so the
  argument (as every other object that existed) holds the same elements in the same
  order.
\<close>

theorem squaring_leaves_argument_unchanged:
  assumes "list_struct < length s"
  shows "square_all_list_st list_struct s =
      Some (length s, s @ [square_all_list (s ! list_struct)]) \<and>
    square_all_array_st list_struct s =
      Some (length s, s @ [list_of_ndarray (square_all_array (NDArray (s ! list_struct)))]) \<and>
    square_list_FL_st list_struct s =
      Some (length s, s @ [square_list_FL (s ! list_struct)]) \<and>
    square_list_LC_st list_struct s =
      Some (length s, s @ [square_list_LC (s ! list_struct)]) \<and>
    (\<forall>r. (s @ [r]) ! list_struct = s ! list_struct \<and> take (length s) (s @ [r]) = s)"
  using assms
  by (simp add: square_all_list_st_def square_all_array_st_def square_list_FL_st_def
      square_list_LC_st_def store_new_def square_loop_new_eq square_all_list_eq
      square_list_FL_eq square_list_LC_def square_all_array_def ndarray_power_def
      list_of_ndarray_def nth_append)

theorem squaring_leaves_argument_unchanged_witness:
  "(1::nat) < length [[5], [1, 2, 3 :: int]] \<and>
   square_all_list_st 1 [[5], [1, 2, 3 :: int]] = Some (2, [[5], [1, 2, 3], [1, 4, 9]]) \<and>
   square_all_array_st 1 [[5], [1, 2, 3 :: int]] = Some (2, [[5], [1, 2, 3], [1, 4, 9]]) \<and>
   square_list_FL_st 1 [[5], [1, 2, 3 :: int]] = Some (2, [[5], [1, 2, 3], [1, 4, 9]]) \<and>
   square_list_LC_st 1 [[5], [1, 2, 3 :: int]] = Some (2, [[5], [1, 2, 3], [1, 4, 9]])"
  using squaring_leaves_argument_unchanged [of 1 "[[5], [1, 2, 3 :: int]]"]
  by (simp add: square_all_list_eq square_list_FL_eq square_list_LC_def square_all_array_def
      ndarray_power_def list_of_ndarray_def)

subsection \<open>The dense complex buffer and its powers\<close>

text \<open>
  Claim C6. For every positive \<open>N\<close>, every density and every realization of the random
  source, \<open>generate_dense_matrix\<close> returns \<open>N\<close> rows of \<open>N\<close> complex values each;
  the real part of each value is 0 or 1, the outcome of comparing one sample with half
  the density, and its imaginary part is 0 or 1, the outcome of comparing another
  sample, drawn later, with the same threshold.
\<close>

theorem generate_dense_matrix_entries:
  assumes "0 < N"
  shows "length (fst (generate_dense_matrix N density st)) = N \<and>
    (\<forall>i<N. length (fst (generate_dense_matrix N density st) ! i) = N \<and>
      (\<forall>j<N.
         fst (generate_dense_matrix N density st) ! i ! j =
           Complex (of_bool (density / 2 < samples st (drawn st + i * N + j)))
                   (of_bool (density / 2 < samples st (drawn st + N * N + i * N + j))) \<and>
         Re (fst (generate_dense_matrix N density st) ! i ! j) \<in> {0, 1} \<and>
         Im (fst (generate_dense_matrix N density st) ! i ! j) \<in> {0, 1}))"
proof -
  have "length (fst (generate_dense_matrix N density st)) = N"
    by (simp add: generate_dense_matrix_rows)
  moreover have "length (fst (generate_dense_matrix N density st) ! i) = N" if "i < N" for i
    using that by (simp add: generate_dense_matrix_rows)
  ultimately show ?thesis
    by (simp add: generate_dense_matrix_nth)
qed

theorem generate_dense_matrix_entries_witness:
  "(0::nat) < 2 \<and>
   length (fst (generate_dense_matrix 2 default_density
     (RandomState (\<lambda>k. if even k then 0 else 1 / 2) 0))) = 2 \<and>
   fst (generate_dense_matrix 2 default_density
     (RandomState (\<lambda>k. if even k then 0 else 1 / 2) 0)) ! 0 ! 1 = Complex 1 1 \<and>
   fst (generate_dense_matrix 2 default_density
     (RandomState (\<lambda>k. if even k then 0 else 1 / 2) 0)) ! 1 ! 0 = Complex 0 0"
proof -
  have pos: "(0::nat) < 2" by simp
  from generate_dense_matrix_entries [OF pos, of default_density
      "RandomState (\<lambda>k. if even k then 0 else 1 / 2) 0"]
  show ?thesis
    by (simp add: default_density_def)
qed




end
